theory Spec2Isabelle
  imports Complex_Main "HOL-Library.AList" "HOL-Library.Sublist" "HOL-Library.Multiset"
begin

section \<open>Python values, dictionaries and exceptions\<close>

text \<open>
  The serving code (\<^verbatim>\<open>app.py\<close>, \<^verbatim>\<open>inference.py\<close>) works on a request payload: a Python
  \<^verbatim>\<open>dict\<close> from field names to an \<^verbatim>\<open>int\<close>, a \<^verbatim>\<open>float\<close> or a \<^verbatim>\<open>str\<close>.
  Python's unbounded \<^verbatim>\<open>int\<close> is \<^typ>\<open>int\<close>. A finite \<^verbatim>\<open>float\<close> is the real number it
  denotes: the payload code only compares floats with \<^verbatim>\<open>0\<close> and with one another and
  stores the constants \<^verbatim>\<open>0.0\<close> and \<^verbatim>\<open>1\<close>, and Python compares an \<^verbatim>\<open>int\<close> with a
  \<^verbatim>\<open>float\<close> by value, so no rounding takes place. NaN and the infinities are not modelled.

  A \<^verbatim>\<open>dict\<close> keeps its keys in insertion order, so it is an association list:
  \<^term>\<open>map_of\<close> reads a key and \<^const>\<open>AList.update\<close> writes one (in place when the key
  exists, at the end otherwise), as \<^verbatim>\<open>d[k] = v\<close> does.
\<close>

datatype pyval = PyInt int | PyFloat real | PyStr string

datatype py_error = KeyError string | TypeError | ValueError string

type_synonym pydict = "(string \<times> pyval) list"

text \<open>\<^verbatim>\<open>d[k]\<close>: raises \<^verbatim>\<open>KeyError\<close> when the key is missing.\<close>

definition getitem :: "pydict \<Rightarrow> string \<Rightarrow> py_error + pyval" where
  "getitem d k = (case map_of d k of None \<Rightarrow> Inl (KeyError k) | Some v \<Rightarrow> Inr v)"

text \<open>\<^verbatim>\<open>v > 0\<close>: a number is compared by value, a \<^verbatim>\<open>str\<close> raises \<^verbatim>\<open>TypeError\<close>.\<close>

fun py_gt_zero :: "pyval \<Rightarrow> py_error + bool" where
  "py_gt_zero (PyInt i) = Inr (0 < i)"
| "py_gt_zero (PyFloat r) = Inr (0 < r)"
| "py_gt_zero (PyStr s) = Inl TypeError"

text \<open>\<^verbatim>\<open>v == 0\<close> and \<^verbatim>\<open>v == 0.0\<close>: equality never raises; a \<^verbatim>\<open>str\<close> equals no number.\<close>

fun py_eq_zero :: "pyval \<Rightarrow> bool" where
  "py_eq_zero (PyInt i) = (i = 0)"
| "py_eq_zero (PyFloat r) = (r = 0)"
| "py_eq_zero (PyStr s) = False"

text \<open>Sequencing of statements that may raise: the first exception ends the run.\<close>

definition bind_err :: "'e + 'a \<Rightarrow> ('a \<Rightarrow> 'e + 'b) \<Rightarrow> 'e + 'b" where
  "bind_err m f = (case m of Inl e \<Rightarrow> Inl e | Inr v \<Rightarrow> f v)"

section \<open>The auto-fix block of the form (\<^verbatim>\<open>app.py\<close>, lines 78 to 101)\<close>

text \<open>
  The block mutates \<^verbatim>\<open>payload\<close> and appends to \<^verbatim>\<open>fixes\<close>; the model passes both on as a
  pair. Each \<^verbatim>\<open>if\<close> statement of the block is one step. Python's \<^verbatim>\<open>and\<close> evaluates its
  right operand only when the left one is true, so a step reads the second field only then.
\<close>

type_synonym fix_state = "pydict \<times> string list"

text \<open>
  \<^verbatim>\<open>if payload["sessions_7d"] > 0 and payload["active_days_7d"] == 0:\<close>
  \<^verbatim>\<open>    payload["active_days_7d"] = 1; fixes.append(...)\<close>
\<close>

definition fix_active_days :: "fix_state \<Rightarrow> py_error + fix_state" where
  "fix_active_days st = (case st of (payload, fixes) \<Rightarrow>
     bind_err (getitem payload ''sessions_7d'') (\<lambda>s.
     bind_err (py_gt_zero s) (\<lambda>pos.
     bind_err (if pos then bind_err (getitem payload ''active_days_7d'') (\<lambda>a. Inr (py_eq_zero a))
               else Inr False) (\<lambda>c.
     if c then Inr (AList.update ''active_days_7d'' (PyInt 1) payload,
                    fixes @ [''active_days_7d set to 1 because sessions_7d > 0''])
     else Inr (payload, fixes)))))"

text \<open>
  \<^verbatim>\<open>if payload["active_days_7d"] > 0 and payload["sessions_7d"] == 0:\<close>
  \<^verbatim>\<open>    payload["sessions_7d"] = payload["active_days_7d"]; fixes.append(...)\<close>
\<close>

definition fix_sessions :: "fix_state \<Rightarrow> py_error + fix_state" where
  "fix_sessions st = (case st of (payload, fixes) \<Rightarrow>
     bind_err (getitem payload ''active_days_7d'') (\<lambda>a.
     bind_err (py_gt_zero a) (\<lambda>pos.
     bind_err (if pos then bind_err (getitem payload ''sessions_7d'') (\<lambda>s. Inr (py_eq_zero s))
               else Inr False) (\<lambda>c.
     if c then bind_err (getitem payload ''active_days_7d'') (\<lambda>a'.
                 Inr (AList.update ''sessions_7d'' a' payload,
                      fixes @ [''sessions_7d set to active_days_7d because active_days_7d > 0'']))
     else Inr (payload, fixes)))))"

text \<open>
  \<^verbatim>\<open>if payload[k] != 0.0: payload[k] = 0.0; fixes.append(k + " set to 0 because sessions_7d = 0")\<close>,
  the statement the block repeats for each of the three per-session metrics.
\<close>

definition zero_metric :: "string \<Rightarrow> fix_state \<Rightarrow> py_error + fix_state" where
  "zero_metric k st = (case st of (payload, fixes) \<Rightarrow>
     bind_err (getitem payload k) (\<lambda>v.
     if \<not> py_eq_zero v
     then Inr (AList.update k (PyFloat 0) payload,
               fixes @ [k @ '' set to 0 because sessions_7d = 0''])
     else Inr (payload, fixes)))"

text \<open>\<^verbatim>\<open>if payload["sessions_7d"] == 0:\<close> followed by the three nested statements.\<close>

definition fix_metrics :: "fix_state \<Rightarrow> py_error + fix_state" where
  "fix_metrics st = (case st of (payload, fixes) \<Rightarrow>
     bind_err (getitem payload ''sessions_7d'') (\<lambda>s.
     if py_eq_zero s
     then bind_err (zero_metric ''avg_turns_per_session_7d'' (payload, fixes)) (\<lambda>st1.
          bind_err (zero_metric ''tokens_per_session_7d'' st1) (\<lambda>st2.
          zero_metric ''model_switch_rate_7d'' st2))
     else Inr (payload, fixes)))"

text \<open>The whole block, starting from \<^verbatim>\<open>fixes = []\<close>: the repaired payload and the audit.\<close>

definition repair :: "pydict \<Rightarrow> py_error + fix_state" where
  "repair payload =
     bind_err (fix_active_days (payload, [])) (\<lambda>st1.
     bind_err (fix_sessions st1) (\<lambda>st2.
     fix_metrics st2))"

text \<open>The five fields the block reads and writes.\<close>

definition repair_fields :: "string list" where
  "repair_fields = [''sessions_7d'', ''active_days_7d'', ''avg_turns_per_session_7d'',
     ''tokens_per_session_7d'', ''model_switch_rate_7d'']"

text \<open>A numeric value that is not negative (\<^verbatim>\<open>st.number_input(..., min_value=0)\<close>).\<close>

fun nonneg :: "pyval \<Rightarrow> bool" where
  "nonneg (PyInt i) = (0 \<le> i)"
| "nonneg (PyFloat r) = (0 \<le> r)"
| "nonneg (PyStr s) = False"

text \<open>The payload the form builds from its default widget values (lines 59 to 73).\<close>

definition default_payload :: pydict where
  "default_payload =
     [(''tokens_per_session_7d'', PyFloat 300),
      (''sessions_7d'', PyInt 8),
      (''active_days_7d'', PyInt 3),
      (''avg_turns_per_session_7d'', PyFloat 8),
      (''error_rate_7d'', PyFloat 0.05),
      (''avg_latency_ms_7d'', PyFloat 600),
      (''sessions_trend_7d'', PyFloat 0),
      (''tokens_trend_7d'', PyFloat 0),
      (''model_switch_rate_7d'', PyFloat 0.10),
      (''activated_800'', PyInt 0),
      (''obs_month'', PyInt 1),
      (''obs_dow'', PyInt 2),
      (''primary_model_7d'', PyStr ''gpt-4o'')]"

text \<open>
  The same payload with the two activity counts changed, as the form's user may enter them:
  no activity at all (the third rule applies), and active days without sessions (the second
  rule applies).
\<close>

definition idle_payload :: pydict where
  "idle_payload =
     AList.update ''active_days_7d'' (PyInt 0) (AList.update ''sessions_7d'' (PyInt 0) default_payload)"

definition days_only_payload :: pydict where
  "days_only_payload =
     AList.update ''active_days_7d'' (PyInt 5) (AList.update ''sessions_7d'' (PyInt 0) default_payload)"

subsection \<open>Predicates on payloads\<close>

fun numeric :: "pyval \<Rightarrow> bool" where
  "numeric (PyInt i) = True"
| "numeric (PyFloat r) = True"
| "numeric (PyStr s) = False"

definition has_key :: "pydict \<Rightarrow> string \<Rightarrow> bool" where
  "has_key p k = (map_of p k \<noteq> None)"

text \<open>The field \<open>k\<close> is present and its value satisfies \<open>P\<close>.\<close>

definition holds_at :: "(pyval \<Rightarrow> bool) \<Rightarrow> pydict \<Rightarrow> string \<Rightarrow> bool" where
  "holds_at P p k = (case map_of p k of None \<Rightarrow> False | Some v \<Rightarrow> P v)"

text \<open>
  The consistency the block is written to establish: without sessions there are no active
  days and the per-session metrics are zero; with sessions there is at least one active day.
\<close>

definition consistent :: "pydict \<Rightarrow> bool" where
  "consistent p =
     (case (map_of p ''sessions_7d'', map_of p ''active_days_7d'') of
        (Some s, Some a) \<Rightarrow>
          (py_eq_zero s \<longrightarrow> py_eq_zero a
             \<and> holds_at py_eq_zero p ''avg_turns_per_session_7d''
             \<and> holds_at py_eq_zero p ''tokens_per_session_7d''
             \<and> holds_at py_eq_zero p ''model_switch_rate_7d'')
          \<and> (py_gt_zero s = Inr True \<longrightarrow> py_gt_zero a = Inr True)
      | _ \<Rightarrow> False)"

text \<open>
  A step is settled on a payload when its condition is evaluated without an exception and
  is false, so that the step leaves payload and audit as they are.
\<close>

definition settled_active_days :: "pydict \<Rightarrow> bool" where
  "settled_active_days p \<longleftrightarrow> (\<exists>s. map_of p ''sessions_7d'' = Some s \<and>
     (py_gt_zero s = Inr False \<or>
      (py_gt_zero s = Inr True \<and> (\<exists>a. map_of p ''active_days_7d'' = Some a \<and> \<not> py_eq_zero a))))"

definition settled_sessions :: "pydict \<Rightarrow> bool" where
  "settled_sessions p \<longleftrightarrow> (\<exists>a. map_of p ''active_days_7d'' = Some a \<and>
     (py_gt_zero a = Inr False \<or>
      (py_gt_zero a = Inr True \<and> (\<exists>s. map_of p ''sessions_7d'' = Some s \<and> \<not> py_eq_zero s))))"

definition settled_metrics :: "pydict \<Rightarrow> bool" where
  "settled_metrics p \<longleftrightarrow> (\<exists>s. map_of p ''sessions_7d'' = Some s \<and>
     (\<not> py_eq_zero s \<or>
      (holds_at py_eq_zero p ''avg_turns_per_session_7d''
       \<and> holds_at py_eq_zero p ''tokens_per_session_7d''
       \<and> holds_at py_eq_zero p ''model_switch_rate_7d'')))"

section \<open>Request preparation and scoring (\<^verbatim>\<open>inference.py\<close>)\<close>

text \<open>
  \<^verbatim>\<open>pd.DataFrame([payload])\<close> is a frame of one row whose columns are the keys of the
  payload, in order. A one-row frame is the list of its columns, each with the row's value,
  so the frame of a payload is the payload itself.

  \<^verbatim>\<open>for c in FEATURES: if c not in df.columns: df[c] = 0\<close> adds each missing column at the
  end of the frame, with the integer 0.
\<close>

fun fill_missing :: "string list \<Rightarrow> pydict \<Rightarrow> pydict" where
  "fill_missing [] df = df"
| "fill_missing (c # cs) df =
     fill_missing cs (if c \<notin> set (map fst df) then df @ [(c, PyInt 0)] else df)"

text \<open>
  \<^verbatim>\<open>df[FEATURES]\<close>: the listed columns in the listed order; pandas raises \<^verbatim>\<open>KeyError\<close>
  when a listed column is not in the frame.
\<close>

fun select_columns :: "pydict \<Rightarrow> string list \<Rightarrow> py_error + pydict" where
  "select_columns df [] = Inr []"
| "select_columns df (c # cs) =
     bind_err (getitem df c) (\<lambda>v.
     bind_err (select_columns df cs) (\<lambda>rest. Inr ((c, v) # rest)))"

text \<open>
  \<^verbatim>\<open>_prep(payload)\<close>. The module-level list \<^verbatim>\<open>FEATURES\<close>, loaded from the artifact
  store when the module is imported, is the first argument.
\<close>

definition prep :: "string list \<Rightarrow> pydict \<Rightarrow> py_error + pydict" where
  "prep FEATURES payload = select_columns (fill_missing FEATURES payload) FEATURES"

text \<open>
  \<^verbatim>\<open>str.lower()\<close> on the ASCII letters. The result is only compared with four lower-case
  ASCII words, and no character outside ASCII has one of their letters as its lower case.
\<close>

definition lower_char :: "char \<Rightarrow> char" where
  "lower_char c =
     (let n = (of_char c :: nat) in if 65 \<le> n \<and> n \<le> 90 then char_of (n + 32) else c)"

definition lower :: "string \<Rightarrow> string" where
  "lower s = map lower_char s"

text \<open>
  The branch of \<^verbatim>\<open>predict\<close> that picks the model and reads the probability of class 1,
  \<^verbatim>\<open>float(M.predict_proba(X)[0, 1])\<close>. The two fitted models are library objects loaded
  from the artifact store; each is taken as a function from the prepared frame to its
  probability, a float read as the real number it denotes.
\<close>

definition model_proba ::
    "(pydict \<Rightarrow> real) \<Rightarrow> (pydict \<Rightarrow> real) \<Rightarrow> string \<Rightarrow> pydict \<Rightarrow> py_error + real" where
  "model_proba XGB LOGREG_PIPE model_choice X =
     (if lower model_choice \<in> set [''xgb'', ''xgboost''] then Inr (XGB X)
      else if lower model_choice \<in> set [''logreg'', ''logistic''] then Inr (LOGREG_PIPE X)
      else Inl (ValueError (''model_choice must be '' @ [CHR 0x27] @ ''xgb'' @ [CHR 0x27]
                  @ '' or '' @ [CHR 0x27] @ ''logreg'' @ [CHR 0x27])))"

text \<open>The dictionary \<^verbatim>\<open>predict\<close> returns.\<close>

record prediction =
  churn_probability :: real
  churn_prediction :: int
  threshold :: real

text \<open>
  \<^verbatim>\<open>predict(payload, model_choice, threshold)\<close>: \<^verbatim>\<open>pred = int(prob >= threshold)\<close>.
  A call that leaves out \<^verbatim>\<open>model_choice\<close> or \<^verbatim>\<open>threshold\<close> passes the defaults
  \<^verbatim>\<open>"xgb"\<close> and \<^verbatim>\<open>0.35\<close>; the form always passes both.
\<close>

definition predict ::
    "string list \<Rightarrow> (pydict \<Rightarrow> real) \<Rightarrow> (pydict \<Rightarrow> real) \<Rightarrow>
       pydict \<Rightarrow> string \<Rightarrow> real \<Rightarrow> py_error + prediction" where
  "predict FEATURES XGB LOGREG_PIPE payload model_choice thr =
     bind_err (prep FEATURES payload) (\<lambda>X.
     bind_err (model_proba XGB LOGREG_PIPE model_choice X) (\<lambda>prob.
     let pred = (if prob \<ge> thr then 1 else 0)
     in Inr \<lparr>churn_probability = prob, churn_prediction = pred, threshold = thr\<rparr>))"

text \<open>A feature contract with one-hot columns, for the examples below.\<close>

definition example_features :: "string list" where
  "example_features =
     [''tokens_per_session_7d'', ''sessions_7d'', ''active_days_7d'', ''activated_800'',
      ''primary_model_7d_gpt-4o'', ''primary_model_7d_other'']"

text \<open>The record of the end-to-end scenario: a heavy user of ten sessions on four days.\<close>

definition scenario_payload :: pydict where
  "scenario_payload =
     [(''tokens_per_session_7d'', PyInt 900), (''sessions_7d'', PyInt 10),
      (''active_days_7d'', PyInt 4), (''primary_model_7d'', PyStr ''gpt-4o'')]"

section \<open>Batch processing (\<^verbatim>\<open>processing.py\<close>, \<^verbatim>\<open>main\<close>)\<close>

subsection \<open>Tables\<close>

text \<open>
  A cell of the raw input table is missing, a string or a number. A row gives the cell of
  each column, and a \<^verbatim>\<open>DataFrame\<close> is its column names and its rows in index order. Once
  \<^verbatim>\<open>obs_end_date\<close> is parsed the column holds timestamps (nanoseconds since the epoch):
  from there on a row is the pair of its timestamp and its other cells.
\<close>

datatype cell = Missing | Text string | Number real

type_synonym row = "string \<Rightarrow> cell"

record 'r dataframe =
  columns :: "string list"
  rows :: "'r list"

type_synonym dated_row = "int \<times> row"

subsection \<open>Messages\<close>

text \<open>
  \<^verbatim>\<open>repr\<close> of a string made of letters, digits and underscores, as the required column
  names are: the string between single quotes.
\<close>

definition py_repr :: "string \<Rightarrow> string" where
  "py_repr s = [CHR 0x27] @ s @ [CHR 0x27]"

text \<open>\<^verbatim>\<open>sep.join(xs)\<close>.\<close>

fun join :: "string \<Rightarrow> string list \<Rightarrow> string" where
  "join sep [] = []"
| "join sep [x] = x"
| "join sep (x # y # ys) = x @ sep @ join sep (y # ys)"

text \<open>\<^verbatim>\<open>str\<close> of a list of strings, as an f-string formats it.\<close>

definition py_str_list :: "string list \<Rightarrow> string" where
  "py_str_list xs = ''['' @ join '', '' (map py_repr xs) @ '']''"

text \<open>\<^verbatim>\<open>str\<close> of a natural number: its decimal digits.\<close>

definition digit_char :: "nat \<Rightarrow> char" where
  "digit_char d = ''0123456789'' ! d"

function py_str_nat :: "nat \<Rightarrow> string" where
  "py_str_nat n = (if n < 10 then [digit_char n] else py_str_nat (n div 10) @ [digit_char (n mod 10)])"
  by pat_completeness auto
termination
  by (relation "measure id") auto

declare py_str_nat.simps [simp del]

subsection \<open>Section 2 of \<^verbatim>\<open>main\<close>: basic validation (lines 101 to 116)\<close>

definition required_cols :: "string list" where
  "required_cols =
     [''user_id'', ''obs_end_date'', ''churned_14d'', ''tokens_per_session_7d'',
      ''primary_model_7d'']"

text \<open>\<^verbatim>\<open>missing = [c for c in required_cols if c not in df.columns]\<close>\<close>

definition missing_cols :: "'r dataframe \<Rightarrow> string list" where
  "missing_cols df = filter (\<lambda>c. c \<notin> set (columns df)) required_cols"

text \<open>
  \<^verbatim>\<open>pd.to_datetime(df["obs_end_date"], errors="coerce")\<close> is a library call: it is the
  parameter \<open>to_datetime\<close>, which receives the column and the position of an entry and
  returns the entry's timestamp, or \<open>None\<close> for \<^verbatim>\<open>NaT\<close> when the entry cannot be parsed.
  (It receives the whole column because pandas may infer the date format from it.)
\<close>

definition parsed_dates :: "(cell list \<Rightarrow> nat \<Rightarrow> int option) \<Rightarrow> row dataframe \<Rightarrow> int option list" where
  "parsed_dates to_datetime df =
     (let col = map (\<lambda>r. r ''obs_end_date'') (rows df)
      in map (to_datetime col) [0..<length col])"

text \<open>\<^verbatim>\<open>int(df["obs_end_date"].isna().sum())\<close>\<close>

definition bad_rows :: "int option list \<Rightarrow> nat" where
  "bad_rows dates = length (filter (\<lambda>d. d = None) dates)"

definition basic_validation ::
    "(cell list \<Rightarrow> nat \<Rightarrow> int option) \<Rightarrow> row dataframe \<Rightarrow> py_error + dated_row dataframe" where
  "basic_validation to_datetime df =
     (let missing = missing_cols df in
      if missing \<noteq> []
      then Inl (ValueError (''Missing required columns: '' @ py_str_list missing))
      else
        let dates = parsed_dates to_datetime df in
        if list_ex (\<lambda>d. d = None) dates
        then Inl (ValueError (''obs_end_date has '' @ py_str_nat (bad_rows dates)
                                @ '' unparsable values.''))
        else Inr \<lparr>columns = columns df, rows = zip (map the dates) (rows df)\<rparr>)"

subsection \<open>Section 7 of \<^verbatim>\<open>main\<close>: the time-based split (lines 154 to 162)\<close>

text \<open>
  \<^verbatim>\<open>int(n * 0.70)\<close> is computed in IEEE 754 double precision. \<^verbatim>\<open>n\<close> is converted to a
  double, multiplied by the double nearest to 0.70, the exact product is rounded to the
  nearest double (ties to even), and \<^verbatim>\<open>int\<close> drops the fraction. The doubles involved are
  multiples of \<open>2\<^sup>-\<^sup>5\<^sup>3\<close>, so the model works on natural numbers: \<open>round_to_double m\<close>
  rounds \<open>m\<close> to 53 significant bits. \<^verbatim>\<open>len(df)\<close> is below \<open>2\<^sup>6\<^sup>3\<close>, far from the
  overflow of a double, so the exponent range plays no part.
\<close>

fun bit_length :: "nat \<Rightarrow> nat" where
  "bit_length n = (if n = 0 then 0 else Suc (bit_length (n div 2)))"

declare bit_length.simps [simp del]

text \<open>
  Rounding \<open>m\<close> to a multiple of \<open>2\<^sup>s\<close>, to the nearest one and to the even multiple on
  a tie (\<open>s\<close> is at least 1).
\<close>

definition round_half_even :: "nat \<Rightarrow> nat \<Rightarrow> nat" where
  "round_half_even s m =
     (let q = m div 2 ^ s; r = m mod 2 ^ s; h = 2 ^ (s - 1)
      in (if r < h \<or> (r = h \<and> even q) then q else q + 1) * 2 ^ s)"

definition round_to_double :: "nat \<Rightarrow> nat" where
  "round_to_double m =
     (let b = bit_length m in if b \<le> 53 then m else round_half_even (b - 53) m)"

text \<open>
  The doubles that the literals \<^verbatim>\<open>0.70\<close> and \<^verbatim>\<open>0.85\<close> denote are
  \<open>6305039478318694 / 2\<^sup>5\<^sup>3\<close> and \<open>7656119366529843 / 2\<^sup>5\<^sup>3\<close>.
\<close>

definition ratio_070 :: nat where
  "ratio_070 = 6305039478318694"

definition ratio_085 :: nat where
  "ratio_085 = 7656119366529843"

text \<open>\<^verbatim>\<open>int(n * r)\<close> for the double \<open>r = c / 2\<^sup>5\<^sup>3\<close>.\<close>

definition int_of_product :: "nat \<Rightarrow> nat \<Rightarrow> nat" where
  "int_of_product n c = round_to_double (round_to_double n * c) div 2 ^ 53"

text \<open>
  \<^verbatim>\<open>df.sort_values("obs_end_date").reset_index(drop=True)\<close> is a library call: it is the
  parameter \<open>sort_values\<close> on the rows. \<^verbatim>\<open>df.iloc[a:b]\<close> keeps the rows at the positions
  from \<open>a\<close> up to but not including \<open>b\<close>. The result is the three tables written as
  \<^verbatim>\<open>train.parquet\<close>, \<^verbatim>\<open>val.parquet\<close> and \<^verbatim>\<open>test.parquet\<close>.
\<close>

definition time_based_split ::
    "('r list \<Rightarrow> 'r list) \<Rightarrow> 'r dataframe \<Rightarrow> 'r dataframe \<times> 'r dataframe \<times> 'r dataframe" where
  "time_based_split sort_values df0 =
     (let df = df0\<lparr>rows := sort_values (rows df0)\<rparr>;
          n = length (rows df);
          train_end = int_of_product n ratio_070;
          val_end = int_of_product n ratio_085;
          train_df = df\<lparr>rows := take train_end (rows df)\<rparr>;
          val_df = df\<lparr>rows := drop train_end (take val_end (rows df))\<rparr>;
          test_df = df\<lparr>rows := drop val_end (rows df)\<rparr>
      in (train_df, val_df, test_df))"

subsection \<open>\<^verbatim>\<open>main\<close>, from the loaded table to the three tables it writes\<close>

text \<open>
  The argument \<open>df\<close> is the table that \<^verbatim>\<open>load_input\<close> has read, and the result is the
  three tables that section 8 writes to disk. Sections 3 to 6 (label coercion, dropping
  the leakage column, derived features, imputation and one-hot encoding) are pandas calls on
  the columns; they are the parameter \<open>feature_steps\<close>, which may raise.
\<close>

definition main ::
    "(cell list \<Rightarrow> nat \<Rightarrow> int option) \<Rightarrow>
     (dated_row dataframe \<Rightarrow> py_error + dated_row dataframe) \<Rightarrow>
     (dated_row list \<Rightarrow> dated_row list) \<Rightarrow>
     row dataframe \<Rightarrow> py_error + (dated_row dataframe \<times> dated_row dataframe \<times> dated_row dataframe)" where
  "main to_datetime feature_steps sort_values df =
     bind_err (basic_validation to_datetime df) (\<lambda>df1.
     bind_err (feature_steps df1) (\<lambda>df2.
     Inr (time_based_split sort_values df2)))"

text \<open>A small dated table, for the examples below: four users, two of them on the same day.\<close>

definition user :: "string \<Rightarrow> row" where
  "user u = (\<lambda>c. if c = ''user_id'' then Text u else Missing)"

definition example_table :: "dated_row dataframe" where
  "example_table =
     \<lparr>columns = [''user_id'', ''obs_end_date''],
      rows = [(30, user ''a''), (10, user ''b''), (20, user ''c''), (10, user ''d'')]\<rparr>"

text \<open>
  Raw tables for the examples below. The first lacks two required columns. The second has
  all of them and three rows, two of which carry no readable date; \<open>epoch_only\<close> is a parser
  that reads a number as a timestamp and nothing else.
\<close>

definition dated :: "cell \<Rightarrow> row" where
  "dated d = (\<lambda>c. if c = ''obs_end_date'' then d else Missing)"

definition two_missing_table :: "row dataframe" where
  "two_missing_table =
     \<lparr>columns = [''obs_end_date'', ''tokens_per_session_7d'', ''primary_model_7d'', ''sessions_7d''],
      rows = [dated (Number 10)]\<rparr>"

definition bad_dates_table :: "row dataframe" where
  "bad_dates_table =
     \<lparr>columns = [''user_id'', ''obs_end_date'', ''churned_14d'', ''tokens_per_session_7d'',
                 ''primary_model_7d''],
      rows = [dated (Text ''n/a''), dated (Number 10), dated Missing]\<rparr>"

definition good_dates_table :: "row dataframe" where
  "good_dates_table =
     \<lparr>columns = [''user_id'', ''obs_end_date'', ''churned_14d'', ''tokens_per_session_7d'',
                 ''primary_model_7d''],
      rows = [dated (Number 30), dated (Number 10)]\<rparr>"

definition epoch_only :: "cell list \<Rightarrow> nat \<Rightarrow> int option" where
  "epoch_only col i = (case col ! i of Number x \<Rightarrow> Some \<lfloor>x\<rfloor> | _ \<Rightarrow> None)"

section \<open>Properties of the auto-fix block\<close>

subsection \<open>What each step leaves alone\<close>

lemma update_keys_present: "map_of p k = Some v \<Longrightarrow> map fst (AList.update k w p) = map fst p"
  by (auto simp: update_keys dest: map_of_SomeD intro: rev_image_eqI)

lemma fix_active_days_frame:
  "fix_active_days (p, f) = Inr (q, g) \<Longrightarrow>
     map fst q = map fst p \<and> (\<forall>k. k \<noteq> ''active_days_7d'' \<longrightarrow> map_of q k = map_of p k)"
  unfolding fix_active_days_def bind_err_def getitem_def
  by (auto split: option.splits sum.splits if_splits simp: update_conv' update_keys_present)

lemma fix_sessions_frame:
  "fix_sessions (p, f) = Inr (q, g) \<Longrightarrow>
     map fst q = map fst p \<and> (\<forall>k. k \<noteq> ''sessions_7d'' \<longrightarrow> map_of q k = map_of p k)"
  unfolding fix_sessions_def bind_err_def getitem_def
  by (auto split: option.splits sum.splits if_splits simp: update_conv' update_keys_present)

lemma zero_metric_frame:
  "zero_metric m (p, f) = Inr (q, g) \<Longrightarrow>
     map fst q = map fst p \<and> (\<forall>k. k \<noteq> m \<longrightarrow> map_of q k = map_of p k)"
  unfolding zero_metric_def bind_err_def getitem_def
  by (auto split: option.splits sum.splits if_splits simp: update_conv' update_keys_present)

lemma fix_metrics_Inr:
  assumes "fix_metrics (p, f) = Inr (q, g)"
  obtains (skip) s where "map_of p ''sessions_7d'' = Some s" "\<not> py_eq_zero s" "q = p" "g = f"
  | (zero) s p1 f1 p2 f2 where "map_of p ''sessions_7d'' = Some s" "py_eq_zero s"
      "zero_metric ''avg_turns_per_session_7d'' (p, f) = Inr (p1, f1)"
      "zero_metric ''tokens_per_session_7d'' (p1, f1) = Inr (p2, f2)"
      "zero_metric ''model_switch_rate_7d'' (p2, f2) = Inr (q, g)"
  using assms unfolding fix_metrics_def bind_err_def getitem_def
  by (auto split: option.splits sum.splits if_splits)

lemma fix_metrics_frame:
  assumes "fix_metrics (p, f) = Inr (q, g)"
  shows "map fst q = map fst p \<and>
     (\<forall>k. k \<notin> {''avg_turns_per_session_7d'', ''tokens_per_session_7d'', ''model_switch_rate_7d''}
        \<longrightarrow> map_of q k = map_of p k)"
  using assms
proof (cases rule: fix_metrics_Inr)
  case (skip s)
  then show ?thesis by simp
next
  case (zero s p1 f1 p2 f2)
  from zero_metric_frame[OF zero(3)] zero_metric_frame[OF zero(4)] zero_metric_frame[OF zero(5)]
  show ?thesis by simp
qed

lemma repair_Inr:
  assumes "repair p = Inr (q, g)"
  obtains p1 f1 p2 f2 where "fix_active_days (p, []) = Inr (p1, f1)"
    "fix_sessions (p1, f1) = Inr (p2, f2)" "fix_metrics (p2, f2) = Inr (q, g)"
  using assms unfolding repair_def bind_err_def
  by (auto split: sum.splits)

lemma repair_frame:
  assumes "repair p = Inr (q, g)"
  shows "map fst q = map fst p \<and> (\<forall>k. k \<notin> set repair_fields \<longrightarrow> map_of q k = map_of p k)"
  using assms
proof (cases rule: repair_Inr)
  case (1 p1 f1 p2 f2)
  from fix_active_days_frame[OF 1(1)] fix_sessions_frame[OF 1(2)] fix_metrics_frame[OF 1(3)]
  show ?thesis by (simp add: repair_fields_def)
qed

subsection \<open>A settled step does nothing, and every step settles itself\<close>

lemma py_gt_zero_not_eq_zero: "py_gt_zero v = Inr True \<Longrightarrow> \<not> py_eq_zero v"
  by (cases v) auto

lemma fix_active_days_settled: "settled_active_days p \<Longrightarrow> fix_active_days (p, f) = Inr (p, f)"
  unfolding settled_active_days_def fix_active_days_def bind_err_def getitem_def
  by auto

lemma fix_sessions_settled: "settled_sessions p \<Longrightarrow> fix_sessions (p, f) = Inr (p, f)"
  unfolding settled_sessions_def fix_sessions_def bind_err_def getitem_def
  by auto

lemma zero_metric_settled: "holds_at py_eq_zero p m \<Longrightarrow> zero_metric m (p, f) = Inr (p, f)"
  unfolding holds_at_def zero_metric_def bind_err_def getitem_def
  by (auto split: option.splits)

lemma fix_metrics_settled: "settled_metrics p \<Longrightarrow> fix_metrics (p, f) = Inr (p, f)"
  unfolding settled_metrics_def fix_metrics_def
  by (auto simp: bind_err_def getitem_def zero_metric_settled)

lemma repair_settled:
  assumes "settled_active_days p" "settled_sessions p" "settled_metrics p"
  shows "repair p = Inr (p, [])"
  using assms
  by (simp add: repair_def bind_err_def fix_active_days_settled fix_sessions_settled
      fix_metrics_settled)

lemma fix_active_days_settles: "fix_active_days (p, f) = Inr (q, g) \<Longrightarrow> settled_active_days q"
  unfolding settled_active_days_def fix_active_days_def bind_err_def getitem_def
  by (auto split: option.splits sum.splits if_splits simp: update_conv')

lemma fix_sessions_settles: "fix_sessions (p, f) = Inr (q, g) \<Longrightarrow> settled_sessions q"
  unfolding settled_sessions_def fix_sessions_def bind_err_def getitem_def
  by (auto split: option.splits sum.splits if_splits simp: update_conv' py_gt_zero_not_eq_zero)

lemma zero_metric_settles: "zero_metric m (p, f) = Inr (q, g) \<Longrightarrow> holds_at py_eq_zero q m"
  unfolding holds_at_def zero_metric_def bind_err_def getitem_def
  by (auto split: option.splits sum.splits if_splits simp: update_conv')

lemma zero_metric_keeps:
  "zero_metric m (p, f) = Inr (q, g) \<Longrightarrow> m \<noteq> k \<Longrightarrow> holds_at P p k \<Longrightarrow> holds_at P q k"
  using zero_metric_frame[of m p f q g] by (simp add: holds_at_def)

lemma fix_metrics_settles:
  assumes "fix_metrics (p, f) = Inr (q, g)"
  shows "settled_metrics q"
  using assms
proof (cases rule: fix_metrics_Inr)
  case (skip s)
  then show ?thesis by (auto simp: settled_metrics_def)
next
  case (zero s p1 f1 p2 f2)
  have s: "map_of q ''sessions_7d'' = Some s"
    using fix_metrics_frame[OF assms] zero(1) by simp
  have 1: "holds_at py_eq_zero p1 ''avg_turns_per_session_7d''"
    using zero(3) by (rule zero_metric_settles)
  have 2: "holds_at py_eq_zero p2 ''tokens_per_session_7d''"
    using zero(4) by (rule zero_metric_settles)
  have 3: "holds_at py_eq_zero q ''model_switch_rate_7d''"
    using zero(5) by (rule zero_metric_settles)
  have 12: "holds_at py_eq_zero p2 ''avg_turns_per_session_7d''"
    using zero_metric_keeps[OF zero(4) _ 1] by simp
  have 13: "holds_at py_eq_zero q ''avg_turns_per_session_7d''"
    using zero_metric_keeps[OF zero(5) _ 12] by simp
  have 23: "holds_at py_eq_zero q ''tokens_per_session_7d''"
    using zero_metric_keeps[OF zero(5) _ 2] by simp
  show ?thesis using s 13 23 3 by (auto simp: settled_metrics_def)
qed

lemma fix_sessions_keeps_active_days:
  "fix_sessions (p, f) = Inr (q, g) \<Longrightarrow> settled_active_days p \<Longrightarrow> settled_active_days q"
  unfolding settled_active_days_def fix_sessions_def bind_err_def getitem_def
  by (auto split: option.splits sum.splits if_splits simp: update_conv' py_gt_zero_not_eq_zero)

lemma fix_metrics_keeps_active_days:
  "fix_metrics (p, f) = Inr (q, g) \<Longrightarrow> settled_active_days p \<Longrightarrow> settled_active_days q"
  using fix_metrics_frame[of p f q g] by (simp add: settled_active_days_def)

lemma fix_metrics_keeps_sessions:
  "fix_metrics (p, f) = Inr (q, g) \<Longrightarrow> settled_sessions p \<Longrightarrow> settled_sessions q"
  using fix_metrics_frame[of p f q g] by (simp add: settled_sessions_def)

lemma repair_settles:
  assumes "repair p = Inr (q, g)"
  shows "settled_active_days q \<and> settled_sessions q \<and> settled_metrics q"
  using assms
proof (cases rule: repair_Inr)
  case (1 p1 f1 p2 f2)
  have "settled_active_days p1" using 1(1) by (rule fix_active_days_settles)
  then have "settled_active_days p2" using 1(2) fix_sessions_keeps_active_days by blast
  then have a: "settled_active_days q" using 1(3) fix_metrics_keeps_active_days by blast
  have "settled_sessions p2" using 1(2) by (rule fix_sessions_settles)
  then have b: "settled_sessions q" using 1(3) fix_metrics_keeps_sessions by blast
  have "settled_metrics q" using 1(3) by (rule fix_metrics_settles)
  with a b show ?thesis by simp
qed

subsection \<open>The block raises nothing on a payload that has the five fields\<close>

lemma nonneg_numeric: "nonneg v \<Longrightarrow> numeric v"
  by (cases v) auto

lemma nonneg_cases: "nonneg v \<Longrightarrow> py_eq_zero v \<or> py_gt_zero v = Inr True"
  by (cases v) auto

lemma numeric_gt_zero: "numeric v \<Longrightarrow> \<exists>b. py_gt_zero v = Inr b"
  by (cases v) auto

lemma holds_at_has_key: "holds_at P p k \<Longrightarrow> has_key p k"
  by (auto simp: holds_at_def has_key_def split: option.splits)

lemma holds_at_mono: "holds_at P p k \<Longrightarrow> (\<And>v. P v \<Longrightarrow> Q v) \<Longrightarrow> holds_at Q p k"
  by (auto simp: holds_at_def split: option.splits)

lemma fix_active_days_total:
  "holds_at numeric p ''sessions_7d'' \<Longrightarrow> has_key p ''active_days_7d'' \<Longrightarrow>
     \<exists>q g. fix_active_days (p, f) = Inr (q, g)"
  unfolding holds_at_def has_key_def fix_active_days_def bind_err_def getitem_def
  by (auto split: option.splits dest!: numeric_gt_zero)

lemma fix_sessions_total:
  "holds_at numeric p ''active_days_7d'' \<Longrightarrow> has_key p ''sessions_7d'' \<Longrightarrow>
     \<exists>q g. fix_sessions (p, f) = Inr (q, g)"
  unfolding holds_at_def has_key_def fix_sessions_def bind_err_def getitem_def
  by (auto split: option.splits dest!: numeric_gt_zero)

lemma zero_metric_total: "has_key p m \<Longrightarrow> \<exists>q g. zero_metric m (p, f) = Inr (q, g)"
  unfolding has_key_def zero_metric_def bind_err_def getitem_def
  by (auto split: option.splits)

lemma zero_metric_has_key: "zero_metric m (p, f) = Inr (q, g) \<Longrightarrow> has_key q k = has_key p k"
  unfolding has_key_def zero_metric_def bind_err_def getitem_def
  by (auto split: option.splits if_splits simp: update_conv')

lemma fix_metrics_total:
  assumes "has_key p ''sessions_7d''" "has_key p ''avg_turns_per_session_7d''"
    "has_key p ''tokens_per_session_7d''" "has_key p ''model_switch_rate_7d''"
  shows "\<exists>q g. fix_metrics (p, f) = Inr (q, g)"
proof -
  obtain p1 f1 where 1: "zero_metric ''avg_turns_per_session_7d'' (p, f) = Inr (p1, f1)"
    using zero_metric_total[OF assms(2)] by blast
  have "has_key p1 ''tokens_per_session_7d''"
    using zero_metric_has_key[OF 1] assms(3) by simp
  then obtain p2 f2 where 2: "zero_metric ''tokens_per_session_7d'' (p1, f1) = Inr (p2, f2)"
    using zero_metric_total by blast
  have "has_key p2 ''model_switch_rate_7d''"
    using zero_metric_has_key[OF 1] zero_metric_has_key[OF 2] assms(4) by simp
  then obtain p3 f3 where 3: "zero_metric ''model_switch_rate_7d'' (p2, f2) = Inr (p3, f3)"
    using zero_metric_total by blast
  from assms(1) obtain s where "map_of p ''sessions_7d'' = Some s"
    by (auto simp: has_key_def)
  then show ?thesis using 1 2 3
    by (simp add: fix_metrics_def bind_err_def getitem_def)
qed

lemma fix_active_days_holds:
  "fix_active_days (p, f) = Inr (q, g) \<Longrightarrow> P (PyInt 1) \<Longrightarrow>
     holds_at P p ''sessions_7d'' \<Longrightarrow> holds_at P p ''active_days_7d'' \<Longrightarrow>
     holds_at P q ''sessions_7d'' \<and> holds_at P q ''active_days_7d''"
  unfolding holds_at_def fix_active_days_def bind_err_def getitem_def
  by (auto split: option.splits sum.splits if_splits simp: update_conv')

lemma fix_sessions_holds:
  "fix_sessions (p, f) = Inr (q, g) \<Longrightarrow>
     holds_at P p ''sessions_7d'' \<Longrightarrow> holds_at P p ''active_days_7d'' \<Longrightarrow>
     holds_at P q ''sessions_7d'' \<and> holds_at P q ''active_days_7d''"
  unfolding holds_at_def fix_sessions_def bind_err_def getitem_def
  by (auto split: option.splits sum.splits if_splits simp: update_conv')

lemma fix_metrics_holds:
  "fix_metrics (p, f) = Inr (q, g) \<Longrightarrow>
     holds_at P p ''sessions_7d'' \<Longrightarrow> holds_at P p ''active_days_7d'' \<Longrightarrow>
     holds_at P q ''sessions_7d'' \<and> holds_at P q ''active_days_7d''"
  using fix_metrics_frame[of p f q g] by (simp add: holds_at_def)

lemma repair_holds:
  assumes "repair p = Inr (q, g)" "P (PyInt 1)"
    "holds_at P p ''sessions_7d''" "holds_at P p ''active_days_7d''"
  shows "holds_at P q ''sessions_7d'' \<and> holds_at P q ''active_days_7d''"
  using assms(1)
proof (cases rule: repair_Inr)
  case (1 p1 f1 p2 f2)
  from fix_active_days_holds[OF 1(1) assms(2) assms(3) assms(4)]
  have "holds_at P p1 ''sessions_7d'' \<and> holds_at P p1 ''active_days_7d''" .
  with fix_sessions_holds[OF 1(2)]
  have "holds_at P p2 ''sessions_7d'' \<and> holds_at P p2 ''active_days_7d''" by blast
  with fix_metrics_holds[OF 1(3)] show ?thesis by blast
qed

lemma repair_total:
  assumes "holds_at numeric p ''sessions_7d''" "holds_at numeric p ''active_days_7d''"
    "has_key p ''avg_turns_per_session_7d''" "has_key p ''tokens_per_session_7d''"
    "has_key p ''model_switch_rate_7d''"
  shows "\<exists>q g. repair p = Inr (q, g)"
proof -
  obtain p1 f1 where 1: "fix_active_days (p, []) = Inr (p1, f1)"
    using fix_active_days_total[OF assms(1) holds_at_has_key[OF assms(2)]] by blast
  have n1: "holds_at numeric p1 ''sessions_7d'' \<and> holds_at numeric p1 ''active_days_7d''"
    using fix_active_days_holds[OF 1 _ assms(1) assms(2)] by simp
  then obtain p2 f2 where 2: "fix_sessions (p1, f1) = Inr (p2, f2)"
    using fix_sessions_total holds_at_has_key by blast
  have n2: "holds_at numeric p2 ''sessions_7d''"
    using fix_sessions_holds[OF 2] n1 by blast
  have k: "has_key p2 k = has_key p k" for k
    using fix_active_days_frame[OF 1] fix_sessions_frame[OF 2]
      holds_at_has_key[OF assms(1)] holds_at_has_key[OF assms(2)]
      holds_at_has_key[OF n2] n1 holds_at_has_key
    by (cases "k = ''sessions_7d''"; cases "k = ''active_days_7d''") (auto simp: has_key_def)
  obtain q g where "fix_metrics (p2, f2) = Inr (q, g)"
    using fix_metrics_total[of p2 f2] holds_at_has_key[OF n2] assms(3-5) k by blast
  with 1 2 show ?thesis by (simp add: repair_def bind_err_def)
qed

lemma repair_consistent:
  assumes r: "repair p = Inr (q, g)"
    and n: "holds_at nonneg p ''sessions_7d''" "holds_at nonneg p ''active_days_7d''"
  shows "consistent q"
proof -
  from repair_holds[OF r _ n]
  obtain s a where sa: "map_of q ''sessions_7d'' = Some s" "nonneg s"
    "map_of q ''active_days_7d'' = Some a" "nonneg a"
    by (auto simp: holds_at_def split: option.splits)
  from repair_settles[OF r]
  have st: "settled_active_days q" "settled_sessions q" "settled_metrics q" by simp_all
  show ?thesis
    using sa st nonneg_cases[OF sa(2)] nonneg_cases[OF sa(4)]
    by (auto simp: consistent_def settled_active_days_def settled_sessions_def
        settled_metrics_def dest: py_gt_zero_not_eq_zero)
qed

subsection \<open>The claims about the auto-fix block\<close>

text \<open>
  C2. The repair is idempotent. On a payload that has the five fields, with
  \<^verbatim>\<open>sessions_7d\<close> and \<^verbatim>\<open>active_days_7d\<close> numeric and not negative, the block runs without
  an exception, and running it again on the payload it produced gives that payload back
  unchanged, with an empty audit.
\<close>

theorem repair_idempotent:
  assumes "holds_at nonneg p ''sessions_7d''" "holds_at nonneg p ''active_days_7d''"
    and "has_key p ''avg_turns_per_session_7d''" "has_key p ''tokens_per_session_7d''"
    and "has_key p ''model_switch_rate_7d''"
  shows "\<exists>q g. repair p = Inr (q, g) \<and> repair q = Inr (q, [])"
proof -
  have "holds_at numeric p ''sessions_7d''" "holds_at numeric p ''active_days_7d''"
    using assms(1,2) by (auto intro: holds_at_mono nonneg_numeric)
  then obtain q g where r: "repair p = Inr (q, g)"
    using repair_total assms(3-5) by blast
  from repair_settles[OF r] have "repair q = Inr (q, [])"
    by (simp add: repair_settled)
  with r show ?thesis by blast
qed

theorem repair_idempotent_witness:
  "holds_at nonneg idle_payload ''sessions_7d'' \<and> holds_at nonneg idle_payload ''active_days_7d''
   \<and> has_key idle_payload ''avg_turns_per_session_7d''
   \<and> has_key idle_payload ''tokens_per_session_7d''
   \<and> has_key idle_payload ''model_switch_rate_7d''
   \<and> (\<exists>q g. repair idle_payload = Inr (q, g) \<and> repair q = Inr (q, []))"
  using repair_idempotent [of idle_payload]
  by (simp add: holds_at_def has_key_def idle_payload_def default_payload_def)

text \<open>
  C3. The rules run in the order 1, 2, 3. With \<^verbatim>\<open>sessions_7d = 0\<close> and
  \<^verbatim>\<open>active_days_7d = 5\<close> the block sets \<^verbatim>\<open>sessions_7d\<close> to 5 and changes nothing else:
  the third rule reads the updated \<^verbatim>\<open>sessions_7d\<close>, does not fire, and the audit holds the
  one entry of the second rule.
\<close>

theorem repair_rule_order:
  assumes "map_of p ''sessions_7d'' = Some (PyInt 0)"
    and "map_of p ''active_days_7d'' = Some (PyInt 5)"
  shows "\<exists>q. repair p = Inr (q, [''sessions_7d set to active_days_7d because active_days_7d > 0''])
     \<and> map_of q ''sessions_7d'' = Some (PyInt 5)
     \<and> map_of q ''avg_turns_per_session_7d'' = map_of p ''avg_turns_per_session_7d''
     \<and> map_of q ''tokens_per_session_7d'' = map_of p ''tokens_per_session_7d''
     \<and> map_of q ''model_switch_rate_7d'' = map_of p ''model_switch_rate_7d''
     \<and> map_of q ''active_days_7d'' = Some (PyInt 5)"
  using assms
  by (simp add: repair_def fix_active_days_def fix_sessions_def fix_metrics_def bind_err_def
      getitem_def update_conv')

theorem repair_rule_order_witness:
  "map_of days_only_payload ''sessions_7d'' = Some (PyInt 0)
   \<and> map_of days_only_payload ''active_days_7d'' = Some (PyInt 5)
   \<and> (\<exists>q. repair days_only_payload
          = Inr (q, [''sessions_7d set to active_days_7d because active_days_7d > 0''])
        \<and> map_of q ''sessions_7d'' = Some (PyInt 5)
        \<and> map_of q ''avg_turns_per_session_7d'' = Some (PyFloat 8)
        \<and> map_of q ''tokens_per_session_7d'' = Some (PyFloat 300)
        \<and> map_of q ''model_switch_rate_7d'' = Some (PyFloat 0.10))"
proof -
  have h: "map_of days_only_payload ''sessions_7d'' = Some (PyInt 0)"
    "map_of days_only_payload ''active_days_7d'' = Some (PyInt 5)"
    by (simp_all add: days_only_payload_def default_payload_def)
  have v: "map_of days_only_payload ''avg_turns_per_session_7d'' = Some (PyFloat 8)"
    "map_of days_only_payload ''tokens_per_session_7d'' = Some (PyFloat 300)"
    "map_of days_only_payload ''model_switch_rate_7d'' = Some (PyFloat 0.10)"
    by (simp_all add: days_only_payload_def default_payload_def)
  from repair_rule_order [OF h] obtain q where
    "repair days_only_payload
       = Inr (q, [''sessions_7d set to active_days_7d because active_days_7d > 0''])"
    "map_of q ''sessions_7d'' = Some (PyInt 5)"
    "map_of q ''avg_turns_per_session_7d'' = map_of days_only_payload ''avg_turns_per_session_7d''"
    "map_of q ''tokens_per_session_7d'' = map_of days_only_payload ''tokens_per_session_7d''"
    "map_of q ''model_switch_rate_7d'' = map_of days_only_payload ''model_switch_rate_7d''"
    by blast
  with h v show ?thesis by simp
qed

text \<open>
  C9. When \<^verbatim>\<open>sessions_7d\<close> and \<^verbatim>\<open>active_days_7d\<close> are numeric and not negative, every
  payload the block returns is consistent: \<^verbatim>\<open>sessions_7d = 0\<close> implies that
  \<^verbatim>\<open>active_days_7d\<close> and the three per-session metrics are 0, and \<^verbatim>\<open>sessions_7d > 0\<close>
  implies \<^verbatim>\<open>active_days_7d > 0\<close>. The block does return a payload when the three metrics
  are present.
\<close>

theorem repair_establishes_consistency:
  assumes "holds_at nonneg p ''sessions_7d''" "holds_at nonneg p ''active_days_7d''"
  shows "(\<forall>q g. repair p = Inr (q, g) \<longrightarrow> consistent q)
     \<and> (has_key p ''avg_turns_per_session_7d'' \<and> has_key p ''tokens_per_session_7d''
          \<and> has_key p ''model_switch_rate_7d'' \<longrightarrow> (\<exists>q g. repair p = Inr (q, g)))"
proof (intro conjI allI impI)
  fix q g
  assume "repair p = Inr (q, g)"
  then show "consistent q" using assms by (rule repair_consistent)
next
  assume "has_key p ''avg_turns_per_session_7d'' \<and> has_key p ''tokens_per_session_7d''
    \<and> has_key p ''model_switch_rate_7d''"
  moreover have "holds_at numeric p ''sessions_7d''" "holds_at numeric p ''active_days_7d''"
    using assms by (auto intro: holds_at_mono nonneg_numeric)
  ultimately show "\<exists>q g. repair p = Inr (q, g)"
    using repair_total by blast
qed

theorem repair_establishes_consistency_witness:
  "holds_at nonneg idle_payload ''sessions_7d'' \<and> holds_at nonneg idle_payload ''active_days_7d''
   \<and> has_key idle_payload ''avg_turns_per_session_7d''
   \<and> has_key idle_payload ''tokens_per_session_7d''
   \<and> has_key idle_payload ''model_switch_rate_7d''
   \<and> (\<exists>q g. repair idle_payload = Inr (q, g) \<and> consistent q)"
proof -
  have h: "holds_at nonneg idle_payload ''sessions_7d''"
    "holds_at nonneg idle_payload ''active_days_7d''"
    "has_key idle_payload ''avg_turns_per_session_7d''"
    "has_key idle_payload ''tokens_per_session_7d''"
    "has_key idle_payload ''model_switch_rate_7d''"
    by (simp_all add: holds_at_def has_key_def idle_payload_def default_payload_def)
  from repair_establishes_consistency [OF h(1,2)] h show ?thesis by blast
qed

text \<open>
  C10. The block changes at most the five fields. Whenever it returns a payload, that
  payload has the keys of the input, in the same order, and every key other than the five
  maps to the value it had. The block does return a payload when the five fields are present
  and \<^verbatim>\<open>sessions_7d\<close> and \<^verbatim>\<open>active_days_7d\<close> are numbers.
\<close>

theorem repair_changes_only_its_fields:
  "(\<forall>q g. repair p = Inr (q, g) \<longrightarrow>
       map fst q = map fst p \<and> (\<forall>k. k \<notin> set repair_fields \<longrightarrow> map_of q k = map_of p k))
   \<and> (holds_at numeric p ''sessions_7d'' \<and> holds_at numeric p ''active_days_7d''
        \<and> has_key p ''avg_turns_per_session_7d'' \<and> has_key p ''tokens_per_session_7d''
        \<and> has_key p ''model_switch_rate_7d'' \<longrightarrow> (\<exists>q g. repair p = Inr (q, g)))"
  using repair_frame [of p] repair_total [of p] by blast

theorem repair_changes_only_its_fields_witness:
  "\<exists>q g. repair idle_payload = Inr (q, g)
     \<and> map fst q = map fst idle_payload
     \<and> map_of q ''error_rate_7d'' = Some (PyFloat 0.05)
     \<and> map_of q ''primary_model_7d'' = Some (PyStr ''gpt-4o'')"
proof -
  have h: "holds_at numeric idle_payload ''sessions_7d''"
    "holds_at numeric idle_payload ''active_days_7d''"
    "has_key idle_payload ''avg_turns_per_session_7d''"
    "has_key idle_payload ''tokens_per_session_7d''"
    "has_key idle_payload ''model_switch_rate_7d''"
    by (simp_all add: holds_at_def has_key_def idle_payload_def default_payload_def)
  have k: "''error_rate_7d'' \<notin> set repair_fields" "''primary_model_7d'' \<notin> set repair_fields"
    by (simp_all add: repair_fields_def)
  have v: "map_of idle_payload ''error_rate_7d'' = Some (PyFloat 0.05)"
    "map_of idle_payload ''primary_model_7d'' = Some (PyStr ''gpt-4o'')"
    by (simp_all add: idle_payload_def default_payload_def)
  from repair_changes_only_its_fields [of idle_payload] h k v show ?thesis
    by metis
qed

section \<open>Properties of request preparation and scoring\<close>

lemma fill_missing_keys: "fst ` set (fill_missing cs df) = fst ` set df \<union> set cs"
  by (induction cs arbitrary: df) auto

lemma fill_missing_map_of:
  "map_of (fill_missing cs df) k =
     (case map_of df k of Some v \<Rightarrow> Some v | None \<Rightarrow> if k \<in> set cs then Some (PyInt 0) else None)"
proof (induction cs arbitrary: df)
  case Nil
  then show ?case by (simp split: option.splits)
next
  case (Cons c cs)
  show ?case
    by (auto simp: Cons.IH map_of_eq_None_iff[symmetric] split: option.splits)
qed

lemma select_columns_present:
  "set cs \<subseteq> fst ` set df \<Longrightarrow>
     select_columns df cs = Inr (map (\<lambda>c. (c, the (map_of df c))) cs)"
proof (induction cs)
  case Nil
  then show ?case by simp
next
  case (Cons c cs)
  then obtain v where "map_of df c = Some v"
    by (cases "map_of df c") (auto simp: map_of_eq_None_iff)
  with Cons show ?case by (simp add: bind_err_def getitem_def)
qed

lemma map_of_tabulate:
  "map_of (map (\<lambda>c. (c, f c)) cs) k = (if k \<in> set cs then Some (f k) else None)"
  by (induction cs) auto

text \<open>
  The selection never raises, because the loop has added every column it asks for; the
  prepared frame lists the contract's columns, each with the payload's value or with 0.
\<close>

lemma prep_eq:
  "prep FEATURES payload =
     Inr (map (\<lambda>c. (c, case map_of payload c of None \<Rightarrow> PyInt 0 | Some v \<Rightarrow> v)) FEATURES)"
proof -
  have "set FEATURES \<subseteq> fst ` set (fill_missing FEATURES payload)"
    by (simp add: fill_missing_keys)
  then have "prep FEATURES payload
      = Inr (map (\<lambda>c. (c, the (map_of (fill_missing FEATURES payload) c))) FEATURES)"
    unfolding prep_def by (rule select_columns_present)
  also have "map (\<lambda>c. (c, the (map_of (fill_missing FEATURES payload) c))) FEATURES
      = map (\<lambda>c. (c, case map_of payload c of None \<Rightarrow> PyInt 0 | Some v \<Rightarrow> v)) FEATURES"
    by (rule map_cong) (auto simp: fill_missing_map_of split: option.splits)
  finally show ?thesis .
qed

text \<open>
  C1. For every payload and every feature contract, \<^verbatim>\<open>_prep\<close> returns a frame whose
  columns are exactly the contract's columns, in the contract's order: a contract column
  that the payload lacks holds the default 0, a contract column that the payload has holds
  the payload's value, and no field outside the contract is in the frame.
\<close>

theorem prep_conforms_to_contract:
  "\<exists>X. prep FEATURES payload = Inr X
     \<and> map fst X = FEATURES
     \<and> (\<forall>c \<in> set FEATURES. map_of payload c = None \<longrightarrow> map_of X c = Some (PyInt 0))
     \<and> (\<forall>c \<in> set FEATURES. \<forall>v. map_of payload c = Some v \<longrightarrow> map_of X c = Some v)
     \<and> (\<forall>k. k \<notin> set FEATURES \<longrightarrow> map_of X k = None)"
  by (simp add: prep_eq map_of_tabulate comp_def)

theorem prep_conforms_to_contract_witness:
  "\<exists>X. prep example_features default_payload = Inr X
     \<and> fst ` set X = set example_features
     \<and> map_of X ''primary_model_7d_other'' = Some (PyInt 0)
     \<and> map_of X ''sessions_7d'' = Some (PyInt 8)
     \<and> map_of X ''error_rate_7d'' = None
     \<and> map_of X ''primary_model_7d'' = None"
proof -
  have m: "''primary_model_7d_other'' \<in> set example_features"
    "''sessions_7d'' \<in> set example_features"
    "''error_rate_7d'' \<notin> set example_features"
    "''primary_model_7d'' \<notin> set example_features"
    by (simp_all add: example_features_def)
  have v: "map_of default_payload ''primary_model_7d_other'' = None"
    "map_of default_payload ''sessions_7d'' = Some (PyInt 8)"
    by (simp_all add: default_payload_def)
  from prep_conforms_to_contract [of example_features default_payload]
  obtain X where X: "prep example_features default_payload = Inr X"
    "map fst X = example_features"
    "\<forall>c \<in> set example_features. map_of default_payload c = None \<longrightarrow> map_of X c = Some (PyInt 0)"
    "\<forall>c \<in> set example_features. \<forall>v. map_of default_payload c = Some v \<longrightarrow> map_of X c = Some v"
    "\<forall>k. k \<notin> set example_features \<longrightarrow> map_of X k = None"
    by blast
  have "fst ` set X = set example_features"
    using X(2) by (metis set_map)
  with X m v show ?thesis by blast
qed

text \<open>
  C8. For every payload and each of the two models, \<^verbatim>\<open>predict\<close> returns the model's
  probability, the threshold it was called with, and the decision
  \<^verbatim>\<open>int(prob >= threshold)\<close>: the threshold is an argument of the call. A probability of
  0.40 gives the decision 1 at the threshold 0.35 and the decision 0 at the threshold 0.50.
\<close>

theorem predict_thresholds_probability:
  assumes "lower model_choice \<in> set [''xgb'', ''xgboost'', ''logreg'', ''logistic'']"
  shows "\<exists>X prob. prep FEATURES payload = Inr X
     \<and> model_proba XGB LOGREG_PIPE model_choice X = Inr prob
     \<and> (\<forall>thr. predict FEATURES XGB LOGREG_PIPE payload model_choice thr
           = Inr \<lparr>churn_probability = prob, churn_prediction = (if prob \<ge> thr then 1 else 0),
                  threshold = thr\<rparr>)
     \<and> (prob = 0.40 \<longrightarrow>
          predict FEATURES XGB LOGREG_PIPE payload model_choice 0.35
            = Inr \<lparr>churn_probability = 0.40, churn_prediction = 1, threshold = 0.35\<rparr>
        \<and> predict FEATURES XGB LOGREG_PIPE payload model_choice 0.50
            = Inr \<lparr>churn_probability = 0.40, churn_prediction = 0, threshold = 0.50\<rparr>)"
proof -
  obtain X where X: "prep FEATURES payload = Inr X"
    by (simp add: prep_eq)
  obtain prob where p: "model_proba XGB LOGREG_PIPE model_choice X = Inr prob"
    using assms by (auto simp: model_proba_def)
  from X p show ?thesis
    by (simp add: predict_def bind_err_def)
qed

theorem predict_thresholds_probability_witness:
  "lower ''XGB'' \<in> set [''xgb'', ''xgboost'', ''logreg'', ''logistic'']
   \<and> predict example_features (\<lambda>X. 0.40) (\<lambda>X. 0.90) scenario_payload ''XGB'' 0.35
       = Inr \<lparr>churn_probability = 0.40, churn_prediction = 1, threshold = 0.35\<rparr>
   \<and> predict example_features (\<lambda>X. 0.40) (\<lambda>X. 0.90) scenario_payload ''XGB'' 0.50
       = Inr \<lparr>churn_probability = 0.40, churn_prediction = 0, threshold = 0.50\<rparr>"
proof -
  have l: "lower ''XGB'' = ''xgb''"
    by code_simp
  then have h: "lower ''XGB'' \<in> set [''xgb'', ''xgboost'', ''logreg'', ''logistic'']"
    by simp
  from predict_thresholds_probability [OF h, of example_features scenario_payload
      "\<lambda>X. 0.40" "\<lambda>X. 0.90"]
  obtain X prob where
    p: "model_proba (\<lambda>X. 0.40) (\<lambda>X. 0.90) ''XGB'' X = Inr prob" and
    d: "prob = 0.40 \<longrightarrow>
          predict example_features (\<lambda>X. 0.40) (\<lambda>X. 0.90) scenario_payload ''XGB'' 0.35
            = Inr \<lparr>churn_probability = 0.40, churn_prediction = 1, threshold = 0.35\<rparr>
        \<and> predict example_features (\<lambda>X. 0.40) (\<lambda>X. 0.90) scenario_payload ''XGB'' 0.50
            = Inr \<lparr>churn_probability = 0.40, churn_prediction = 0, threshold = 0.50\<rparr>"
    by blast
  from p l have "prob = 0.40"
    by (simp add: model_proba_def)
  with d h show ?thesis by blast
qed

section \<open>Properties of the batch processing\<close>

subsection \<open>Rounding to a double is monotone\<close>

lemma bit_length_zero: "bit_length 0 = 0"
  by (simp add: bit_length.simps)

lemma bit_length_bounds: "0 < m \<Longrightarrow> 2 ^ (bit_length m - 1) \<le> m \<and> m < 2 ^ bit_length m"
proof (induction m rule: bit_length.induct)
  case (1 n)
  show ?case
  proof (cases "n div 2 = 0")
    case True
    with 1(2) have "n = 1" by (auto simp: div_eq_0_iff)
    then show ?thesis by (simp add: bit_length.simps)
  next
    case False
    with 1 have ih: "2 ^ (bit_length (n div 2) - 1) \<le> n div 2 \<and> n div 2 < 2 ^ bit_length (n div 2)"
      by simp
    have pos: "0 < bit_length (n div 2)" using False by (simp add: bit_length.simps)
    have b: "bit_length n = Suc (bit_length (n div 2))" using 1(2) by (subst bit_length.simps) simp
    from ih pos show ?thesis unfolding b
      by (cases "bit_length (n div 2)") auto
  qed
qed

lemma pow2_less_imp: "(2::nat) ^ a \<le> m \<Longrightarrow> m < 2 ^ b \<Longrightarrow> a < b"
  by (meson le_less_trans power_less_imp_less_exp one_less_numeral_iff semiring_norm(76))

lemma bit_length_unique: "2 ^ k \<le> m \<Longrightarrow> m < 2 ^ Suc k \<Longrightarrow> bit_length m = Suc k"
proof -
  assume a: "2 ^ k \<le> m" "m < 2 ^ Suc k"
  have pos: "0 < m" using a(1) by (cases "m = 0") auto
  from bit_length_bounds[OF pos] have b: "2 ^ (bit_length m - 1) \<le> m" "m < 2 ^ bit_length m" by simp_all
  have "k < bit_length m" using a(1) b(2) by (rule pow2_less_imp)
  moreover have "bit_length m - 1 < Suc k" using b(1) a(2) by (rule pow2_less_imp)
  ultimately show ?thesis by linarith
qed

lemma bit_length_mono: "m \<le> n \<Longrightarrow> bit_length m \<le> bit_length n"
proof (cases "m = 0")
  case True
  then show ?thesis by (simp add: bit_length_zero)
next
  case False
  assume mn: "m \<le> n"
  with False have pos: "0 < m" "0 < n" by auto
  from bit_length_bounds[OF pos(1)] bit_length_bounds[OF pos(2)] mn
  have "2 ^ (bit_length m - 1) \<le> n" "n < 2 ^ bit_length n" by auto
  then have "bit_length m - 1 < bit_length n" by (rule pow2_less_imp)
  then show ?thesis by linarith
qed

lemma round_half_even_lower: "(m div 2 ^ s) * 2 ^ s \<le> round_half_even s m"
  by (simp add: round_half_even_def Let_def)

lemma round_half_even_upper: "round_half_even s m \<le> (m div 2 ^ s + 1) * 2 ^ s"
  by (simp add: round_half_even_def Let_def)

lemma round_half_even_mono:
  assumes "m \<le> n"
  shows "round_half_even s m \<le> round_half_even s n"
proof (cases "m div 2 ^ s < n div 2 ^ s")
  case True
  then have "m div 2 ^ s + 1 \<le> n div 2 ^ s" by simp
  then have "(m div 2 ^ s + 1) * 2 ^ s \<le> (n div 2 ^ s) * 2 ^ s"
    by (rule mult_le_mono1)
  with round_half_even_upper[of s m] round_half_even_lower[of n s] show ?thesis
    by linarith
next
  case False
  with assms have q: "m div 2 ^ s = n div 2 ^ s"
    by (meson div_le_mono le_neq_implies_less)
  have r: "m mod 2 ^ s \<le> n mod 2 ^ s"
    using div_mult_mod_eq[of m "2 ^ s"] div_mult_mod_eq[of n "2 ^ s"] assms q
    by (metis add_le_cancel_left)
  show ?thesis using r by (auto simp: round_half_even_def Let_def q)
qed


lemma round_to_double_bounds:
  assumes "0 < m"
  shows "2 ^ (bit_length m - 1) \<le> round_to_double m \<and> round_to_double m \<le> 2 ^ bit_length m"
proof (cases "bit_length m \<le> 53")
  case True
  with bit_length_bounds[OF assms] show ?thesis
    by (simp add: round_to_double_def)
next
  case False
  define s where "s = bit_length m - 53"
  define lo hi :: nat where "lo = 2 ^ 52" and "hi = 2 ^ 53"
  have b: "bit_length m = s + 53" using False by (simp add: s_def)
  have e: "(2::nat) ^ (bit_length m - 1) = lo * 2 ^ s" "(2::nat) ^ bit_length m = hi * 2 ^ s"
    by (simp_all add: b lo_def hi_def power_add)
  from bit_length_bounds[OF assms] have m: "lo * 2 ^ s \<le> m" "m < hi * 2 ^ s"
    unfolding e by simp_all
  have q1: "lo \<le> m div 2 ^ s"
    using m(1) by (simp add: less_eq_div_iff_mult_less_eq)
  have "m div 2 ^ s < hi"
    using m(2) by (simp add: less_mult_imp_div_less)
  then have q2: "m div 2 ^ s + 1 \<le> hi" by simp
  have "lo * 2 ^ s \<le> (m div 2 ^ s) * 2 ^ s" using q1 by (rule mult_le_mono1)
  then have 1: "lo * 2 ^ s \<le> round_half_even s m"
    using round_half_even_lower[of m s] by (rule order_trans)
  have "(m div 2 ^ s + 1) * 2 ^ s \<le> hi * 2 ^ s" using q2 by (rule mult_le_mono1)
  with round_half_even_upper[of s m] have 2: "round_half_even s m \<le> hi * 2 ^ s"
    by (rule order_trans)
  have "round_to_double m = round_half_even s m"
    using False by (simp add: round_to_double_def s_def)
  with 1 2 show ?thesis unfolding e by simp
qed

lemma round_to_double_zero: "round_to_double 0 = 0"
  by (simp add: round_to_double_def bit_length_zero)

lemma round_to_double_mono:
  assumes "m \<le> n"
  shows "round_to_double m \<le> round_to_double n"
proof (cases "m = 0")
  case True
  then show ?thesis by (simp add: round_to_double_zero)
next
  case False
  with assms have pos: "0 < m" "0 < n" by auto
  have le: "bit_length m \<le> bit_length n" using assms by (rule bit_length_mono)
  show ?thesis
  proof (cases "bit_length m = bit_length n")
    case True
    then show ?thesis
      using assms by (simp add: round_to_double_def Let_def round_half_even_mono)
  next
    case False
    with le have "bit_length m \<le> bit_length n - 1" by simp
    then have "(2::nat) ^ bit_length m \<le> 2 ^ (bit_length n - 1)"
      by (simp add: power_increasing)
    with round_to_double_bounds[OF pos(1)] round_to_double_bounds[OF pos(2)]
    show ?thesis by linarith
  qed
qed

lemma int_of_product_mono: "c \<le> d \<Longrightarrow> int_of_product n c \<le> int_of_product n d"
  unfolding int_of_product_def
  by (intro div_le_mono round_to_double_mono mult_le_mono2)

lemma split_points_ordered: "int_of_product n ratio_070 \<le> int_of_product n ratio_085"
  by (rule int_of_product_mono) (simp add: ratio_070_def ratio_085_def)

subsection \<open>The rounding error is at most half a unit in the last place\<close>

lemma round_to_double_error: "2 ^ 53 * round_to_double m \<le> (2 ^ 53 + 1) * m"
proof (cases "bit_length m \<le> 53")
  case True
  then show ?thesis by (simp add: round_to_double_def)
next
  case False
  define s where "s = bit_length m - 54"
  define k :: nat where "k = 2 ^ 53"
  define h :: nat where "h = 2 ^ s"
  have b: "bit_length m = s + 54" using False by (simp add: s_def)
  have pos: "0 < m" using False by (cases "m = 0") (auto simp: bit_length_zero)
  have "(2::nat) ^ (bit_length m - 1) = k * h" by (simp add: b k_def h_def power_add)
  with bit_length_bounds[OF pos] have m: "k * h \<le> m" by simp
  have p: "(2::nat) ^ (s + 1) = 2 * h" "(2::nat) ^ (s + 1 - 1) = h" by (simp_all add: h_def)
  have rd: "round_to_double m = round_half_even (s + 1) m"
    using False by (simp add: round_to_double_def b)
  have dm: "m div (2 * h) * (2 * h) + m mod (2 * h) = m" by (rule div_mult_mod_eq)
  have "round_half_even (s + 1) m \<le> m + h"
    unfolding round_half_even_def Let_def p using dm by (auto simp: algebra_simps)
  then have "k * round_to_double m \<le> k * (m + h)" unfolding rd by (rule mult_le_mono2)
  also have "\<dots> = k * m + k * h" by (simp add: algebra_simps)
  also have "\<dots> \<le> k * m + m" using m by simp
  finally show ?thesis by (simp add: k_def algebra_simps)
qed

lemma int_of_product_le:
  assumes c: "(2 ^ 53 + 1) * (2 ^ 53 + 1) * c \<le> 2 ^ 53 * 2 ^ 53 * 2 ^ 53"
  shows "int_of_product n c \<le> n"
proof -
  define k :: nat where "k = 2 ^ 53"
  define k1 :: nat where "k1 = 2 ^ 53 + 1"
  define N where "N = round_to_double n"
  define P where "P = round_to_double (N * c)"
  have kpos: "0 < k" by (simp add: k_def)
  have c': "k1 * k1 * c \<le> k * k * k" using c by (simp add: k_def k1_def)
  have 1: "k * N \<le> k1 * n" unfolding k_def k1_def N_def by (rule round_to_double_error)
  have 2: "k * P \<le> k1 * (N * c)" unfolding k_def k1_def P_def by (rule round_to_double_error)
  have "k * (k * P) \<le> k * (k1 * (N * c))" using 2 by (rule mult_le_mono2)
  also have "\<dots> = (k1 * c) * (k * N)" by (simp only: mult_ac)
  also have "\<dots> \<le> (k1 * c) * (k1 * n)" using 1 by (rule mult_le_mono2)
  also have "\<dots> = (k1 * k1 * c) * n" by (simp only: mult_ac)
  also have "\<dots> \<le> (k * k * k) * n" using c' by (rule mult_le_mono1)
  also have "\<dots> = k * (k * (k * n))" by (simp only: mult_ac)
  finally have "P \<le> k * n" using kpos by simp
  then have "P div k \<le> (k * n) div k" by (rule div_le_mono)
  then have "P div k \<le> n" using kpos by simp
  then show ?thesis by (simp add: int_of_product_def P_def N_def k_def)
qed

lemma val_end_le: "int_of_product n ratio_085 \<le> n"
  by (rule int_of_product_le) (simp add: ratio_085_def)

subsection \<open>Slices of a sorted table\<close>

lemma slices_partition:
  assumes "a \<le> b"
  shows "take a xs @ drop a (take b xs) @ drop b xs = xs"
proof -
  have t: "take a (take b xs) = take a xs" using assms by (simp add: min.absorb1)
  have "take a (take b xs) @ drop a (take b xs) = take b xs" by (rule append_take_drop_id)
  then have "take a xs @ drop a (take b xs) = take b xs" by (simp only: t)
  then have "(take a xs @ drop a (take b xs)) @ drop b xs = take b xs @ drop b xs" by (simp only:)
  then show ?thesis by (simp only: append_assoc append_take_drop_id)
qed

lemma sorted_split:
  assumes "sorted (map f xs)"
  shows "\<forall>y \<in> set (take c xs). \<forall>z \<in> set (drop c xs). f y \<le> f z"
proof -
  have "sorted (map f (take c xs @ drop c xs))" using assms by simp
  then show ?thesis unfolding map_append sorted_append by simp
qed

lemma sorted_take: "sorted (map f xs) \<Longrightarrow> sorted (map f (take b xs))"
  by (simp add: sorted_wrt_take flip: take_map)

lemma sorted_slices:
  assumes "sorted (map f xs)" "a \<le> b"
  shows "\<forall>x \<in> set (take a xs). \<forall>y \<in> set (drop a (take b xs)). f x \<le> f y"
proof -
  have "take a (take b xs) = take a xs" using assms(2) by (simp add: min.absorb1)
  with sorted_split[OF sorted_take[OF assms(1), of b], of a] show ?thesis by simp
qed

subsection \<open>The claims about the time-based split\<close>

lemma int_of_product_90: "int_of_product 90 ratio_070 = 62"
proof -
  have a: "bit_length 90 = Suc 6" by (rule bit_length_unique) simp_all
  have b: "bit_length 567453553048682460 = Suc 58" by (rule bit_length_unique) simp_all
  have r: "round_to_double 90 = 90" by (simp add: round_to_double_def a)
  have "round_to_double 567453553048682460 = 567453553048682432"
    by (simp add: round_to_double_def round_half_even_def b)
  with r show ?thesis
    by (simp add: int_of_product_def ratio_070_def)
qed

lemma int_of_product_4: "int_of_product 4 ratio_070 = 2" "int_of_product 4 ratio_085 = 3"
proof -
  have a: "bit_length 4 = Suc 2" by (rule bit_length_unique) simp_all
  have b: "bit_length 25220157913274776 = Suc 54" by (rule bit_length_unique) simp_all
  have c: "bit_length 30624477466119372 = Suc 54" by (rule bit_length_unique) simp_all
  have r: "round_to_double 4 = 4" by (simp add: round_to_double_def a)
  have 1: "round_to_double 25220157913274776 = 25220157913274776"
    by (simp add: round_to_double_def round_half_even_def b)
  have 2: "round_to_double 30624477466119372 = 30624477466119372"
    by (simp add: round_to_double_def round_half_even_def c)
  show "int_of_product 4 ratio_070 = 2" using r 1
    by (simp add: int_of_product_def ratio_070_def)
  show "int_of_product 4 ratio_085 = 3" using r 2
    by (simp add: int_of_product_def ratio_085_def)
qed

lemma time_based_split_rows:
  "time_based_split sort_values df = (tr, va, te) \<Longrightarrow>
     rows tr = take (int_of_product (length (sort_values (rows df))) ratio_070) (sort_values (rows df))
   \<and> rows va = drop (int_of_product (length (sort_values (rows df))) ratio_070)
                 (take (int_of_product (length (sort_values (rows df))) ratio_085) (sort_values (rows df)))
   \<and> rows te = drop (int_of_product (length (sort_values (rows df))) ratio_085) (sort_values (rows df))"
  by (auto simp: time_based_split_def Let_def)

text \<open>
  C4, as the code has it. The cut points are \<^verbatim>\<open>int(n * 0.70)\<close> and \<^verbatim>\<open>int(n * 0.85)\<close>
  evaluated in double precision. For every table of \<open>n\<close> rows that the library sort returns
  in ascending order of the time column, the cut points satisfy
  \<open>train_end \<le> val_end \<le> n\<close>; train, validation and test are the rows at the positions
  \<open>[0, train_end)\<close>, \<open>[train_end, val_end)\<close> and \<open>[val_end, n)\<close> of the sorted table; put
  one after the other they are the sorted table, so that no row is in two of them and their
  sizes add up to \<open>n\<close>; and every time value in train is at most every time value in
  validation, which is at most every time value in test.
\<close>

theorem time_based_split_partitions:
  fixes key :: "'r \<Rightarrow> 'k::linorder"
  assumes "sorted (map key (sort_values (rows df)))"
    and "mset (sort_values (rows df)) = mset (rows df)"
  shows "case time_based_split sort_values df of (train_df, val_df, test_df) \<Rightarrow>
     (let sorted_rows = sort_values (rows df); n = length (rows df);
          train_end = int_of_product n ratio_070; val_end = int_of_product n ratio_085
      in train_end \<le> val_end \<and> val_end \<le> n
       \<and> rows train_df = take train_end sorted_rows
       \<and> rows val_df = drop train_end (take val_end sorted_rows)
       \<and> rows test_df = drop val_end sorted_rows
       \<and> rows train_df @ rows val_df @ rows test_df = sorted_rows
       \<and> length (rows train_df) + length (rows val_df) + length (rows test_df) = n
       \<and> (\<forall>x \<in> set (rows train_df). \<forall>y \<in> set (rows val_df). key x \<le> key y)
       \<and> (\<forall>y \<in> set (rows val_df). \<forall>z \<in> set (rows test_df). key y \<le> key z)
       \<and> (\<forall>x \<in> set (rows train_df). \<forall>z \<in> set (rows test_df). key x \<le> key z))"
proof -
  define xs where "xs = sort_values (rows df)"
  define a where "a = int_of_product (length (rows df)) ratio_070"
  define b where "b = int_of_product (length (rows df)) ratio_085"
  obtain tr va te where t: "time_based_split sort_values df = (tr, va, te)"
    by (cases "time_based_split sort_values df") auto
  have len: "length xs = length (rows df)"
    using assms(2) unfolding xs_def by (rule mset_eq_length)
  have ab: "a \<le> b" unfolding a_def b_def by (rule split_points_ordered)
  have bn: "b \<le> length (rows df)" unfolding b_def by (rule val_end_le)
  from time_based_split_rows[OF t]
  have r: "rows tr = take a xs" "rows va = drop a (take b xs)" "rows te = drop b xs"
    unfolding xs_def[symmetric] len a_def[symmetric] b_def[symmetric] by simp_all
  have s: "sorted (map key xs)" using assms(1) by (simp add: xs_def)
  have p: "rows tr @ rows va @ rows te = xs"
    unfolding r using ab by (rule slices_partition)
  have "length (rows tr @ rows va @ rows te) = length (rows df)"
    unfolding p by (rule len)
  then have l: "length (rows tr) + length (rows va) + length (rows te) = length (rows df)"
    by simp
  have o1: "\<forall>x \<in> set (rows tr). \<forall>y \<in> set (rows va). key x \<le> key y"
    unfolding r using s ab by (rule sorted_slices)
  have o2: "\<forall>y \<in> set (take b xs). \<forall>z \<in> set (rows te). key y \<le> key z"
    unfolding r using s by (rule sorted_split)
  have "set (rows va) \<subseteq> set (take b xs)" unfolding r by (rule set_drop_subset)
  with o2 have o3: "\<forall>y \<in> set (rows va). \<forall>z \<in> set (rows te). key y \<le> key z" by blast
  have "set (rows tr) \<subseteq> set (take b xs)"
    unfolding r using ab by (rule set_take_subset_set_take)
  with o2 have o4: "\<forall>x \<in> set (rows tr). \<forall>z \<in> set (rows te). key x \<le> key z" by blast
  show ?thesis
    unfolding t Let_def xs_def[symmetric] a_def[symmetric] b_def[symmetric]
    using ab bn r p l o1 o3 o4 by simp
qed

theorem time_based_split_partitions_witness:
  "sorted (map fst (sort_key fst (rows example_table)))
   \<and> mset (sort_key fst (rows example_table)) = mset (rows example_table)
   \<and> (case time_based_split (sort_key fst) example_table of (train_df, val_df, test_df) \<Rightarrow>
        rows train_df = [(10, user ''b''), (10, user ''d'')]
      \<and> rows val_df = [(20, user ''c'')]
      \<and> rows test_df = [(30, user ''a'')])"
proof -
  have h: "sorted (map fst (sort_key fst (rows example_table)))"
    "mset (sort_key fst (rows example_table)) = mset (rows example_table)"
    by simp_all
  have s: "sort_key fst (rows example_table)
      = [(10, user ''b''), (10, user ''d''), (20, user ''c''), (30, user ''a'')]"
    by (simp add: example_table_def)
  have n: "length (rows example_table) = 4" by (simp add: example_table_def)
  from time_based_split_partitions [of fst "sort_key fst" example_table, OF h] h
  show ?thesis
    unfolding Let_def n int_of_product_4 s by (auto split: prod.splits)
qed

text \<open>
  The cut point is not the floor of the exact product. On a table of 90 rows the double
  product \<^verbatim>\<open>90 * 0.70\<close> is 62.99999999999999, so train gets 62 rows, while the floor of
  \<open>90 \<times> 0.70\<close> is 63.
\<close>

theorem train_end_below_floor_counterexample:
  "length (rows (fst (time_based_split sort
       \<lparr>columns = [''obs_end_date''], rows = replicate 90 (0::int)\<rparr>)))
     \<noteq> nat \<lfloor>(90::real) * 0.70\<rfloor>"
proof -
  have "nat \<lfloor>(90::real) * 0.70\<rfloor> = 63" by simp
  then show ?thesis
    by (simp add: time_based_split_def Let_def int_of_product_90)
qed

subsection \<open>The claims about the basic validation\<close>

lemma sublist_in_right: "sublist x ys \<Longrightarrow> sublist x (ps @ ys)"
proof -
  assume "sublist x ys"
  then obtain p q where "ys = p @ x @ q" by (auto simp: sublist_def)
  then have "ps @ ys = (ps @ p) @ x @ q" by simp
  then show ?thesis unfolding sublist_def by blast
qed

lemma sublist_in_left: "sublist x ys \<Longrightarrow> sublist x (ys @ ss)"
proof -
  assume "sublist x ys"
  then obtain p q where "ys = p @ x @ q" by (auto simp: sublist_def)
  then have "ys @ ss = p @ x @ (q @ ss)" by simp
  then show ?thesis unfolding sublist_def by blast
qed

lemma sublist_join: "x \<in> set xs \<Longrightarrow> sublist x (join sep xs)"
proof (induction sep xs rule: join.induct)
  case (1 sep)
  then show ?case by simp
next
  case (2 sep y)
  then show ?case by simp
next
  case (3 sep y z zs)
  show ?case
  proof (cases "x = y")
    case True
    then show ?thesis by simp
  next
    case False
    with 3 have "sublist x (join sep (z # zs))" by simp
    then have "sublist x ((y @ sep) @ join sep (z # zs))" by (rule sublist_in_right)
    then show ?thesis by simp
  qed
qed

lemma sublist_py_str_list: "c \<in> set xs \<Longrightarrow> sublist (py_repr c) (py_str_list xs)"
proof -
  assume "c \<in> set xs"
  then have "py_repr c \<in> set (map py_repr xs)" by simp
  then have "sublist (py_repr c) (join '', '' (map py_repr xs))" by (rule sublist_join)
  then have "sublist (py_repr c) (join '', '' (map py_repr xs) @ '']'')"
    by (rule sublist_in_left)
  then have "sublist (py_repr c) (''['' @ join '', '' (map py_repr xs) @ '']'')"
    by (rule sublist_in_right)
  then show ?thesis by (simp add: py_str_list_def)
qed

lemma main_missing:
  "missing_cols df \<noteq> [] \<Longrightarrow>
     main to_datetime feature_steps sort_values df
       = Inl (ValueError (''Missing required columns: '' @ py_str_list (missing_cols df)))"
  by (simp add: main_def basic_validation_def bind_err_def Let_def)

text \<open>
  C6. When the input table lacks at least one required column, \<^verbatim>\<open>main\<close> fails with the
  \<^verbatim>\<open>ValueError\<close> whose message is \<^verbatim>\<open>Missing required columns:\<close> followed by the list of
  all the required columns that are missing, in the order of \<^verbatim>\<open>required_cols\<close>: the quoted
  name of every missing required column is part of the message, not only the first one.
\<close>

theorem missing_columns_all_named:
  assumes "\<exists>c \<in> set required_cols. c \<notin> set (columns df)"
  shows "\<exists>msg. main to_datetime feature_steps sort_values df = Inl (ValueError msg)
     \<and> msg = ''Missing required columns: ''
               @ py_str_list (filter (\<lambda>c. c \<notin> set (columns df)) required_cols)
     \<and> (\<forall>c \<in> set required_cols. c \<notin> set (columns df) \<longrightarrow> sublist (py_repr c) msg)"
proof -
  have ne: "missing_cols df \<noteq> []"
    using assms by (auto simp: missing_cols_def filter_empty_conv)
  have "sublist (py_repr c) (''Missing required columns: '' @ py_str_list (missing_cols df))"
    if "c \<in> set required_cols" "c \<notin> set (columns df)" for c
  proof -
    from that have "c \<in> set (missing_cols df)" by (simp add: missing_cols_def)
    then have "sublist (py_repr c) (py_str_list (missing_cols df))" by (rule sublist_py_str_list)
    then show ?thesis by (rule sublist_in_right)
  qed
  with main_missing[OF ne] show ?thesis
    by (simp add: missing_cols_def)
qed

theorem missing_columns_all_named_witness:
  "(\<exists>c \<in> set required_cols. c \<notin> set (columns two_missing_table))
   \<and> main epoch_only Inr (sort_key fst) two_missing_table
       = Inl (ValueError (''Missing required columns: ['' @ [CHR 0x27] @ ''user_id'' @ [CHR 0x27]
                @ '', '' @ [CHR 0x27] @ ''churned_14d'' @ [CHR 0x27] @ '']''))
   \<and> sublist (py_repr ''user_id'')
        (''Missing required columns: ''
          @ py_str_list (filter (\<lambda>c. c \<notin> set (columns two_missing_table)) required_cols))
   \<and> sublist (py_repr ''churned_14d'')
        (''Missing required columns: ''
          @ py_str_list (filter (\<lambda>c. c \<notin> set (columns two_missing_table)) required_cols))"
proof -
  have h: "\<exists>c \<in> set required_cols. c \<notin> set (columns two_missing_table)"
    by (simp add: required_cols_def two_missing_table_def)
  have m: "''user_id'' \<in> set required_cols" "''user_id'' \<notin> set (columns two_missing_table)"
    "''churned_14d'' \<in> set required_cols" "''churned_14d'' \<notin> set (columns two_missing_table)"
    by (simp_all add: required_cols_def two_missing_table_def)
  have f: "filter (\<lambda>c. c \<notin> set (columns two_missing_table)) required_cols
      = [''user_id'', ''churned_14d'']"
    by (simp add: required_cols_def two_missing_table_def)
  have s: "''Missing required columns: '' @ py_str_list [''user_id'', ''churned_14d'']
      = ''Missing required columns: ['' @ [CHR 0x27] @ ''user_id'' @ [CHR 0x27]
                @ '', '' @ [CHR 0x27] @ ''churned_14d'' @ [CHR 0x27] @ '']''"
    by (simp add: py_str_list_def py_repr_def)
  from missing_columns_all_named [OF h, of epoch_only Inr "sort_key fst"]
  obtain msg where
    1: "main epoch_only Inr (sort_key fst) two_missing_table = Inl (ValueError msg)" and
    2: "msg = ''Missing required columns: ''
               @ py_str_list (filter (\<lambda>c. c \<notin> set (columns two_missing_table)) required_cols)" and
    3: "\<forall>c \<in> set required_cols. c \<notin> set (columns two_missing_table) \<longrightarrow> sublist (py_repr c) msg"
    by blast
  from 3 m have 4: "sublist (py_repr ''user_id'') msg" "sublist (py_repr ''churned_14d'') msg"
    by blast+
  from 1 2 have 5: "main epoch_only Inr (sort_key fst) two_missing_table
      = Inl (ValueError (''Missing required columns: ['' @ [CHR 0x27] @ ''user_id'' @ [CHR 0x27]
                @ '', '' @ [CHR 0x27] @ ''churned_14d'' @ [CHR 0x27] @ '']''))"
    unfolding f s by simp
  from h 5 4[unfolded 2] show ?thesis by blast
qed

lemma missing_cols_empty: "missing_cols df = [] \<longleftrightarrow> set required_cols \<subseteq> set (columns df)"
  by (auto simp: missing_cols_def filter_empty_conv)

lemma bad_rows_pos: "0 < bad_rows ds \<longleftrightarrow> None \<in> set ds"
  by (auto simp: bad_rows_def filter_empty_conv)

lemma list_ex_None: "list_ex (\<lambda>d. d = None) ds \<longleftrightarrow> None \<in> set ds"
  by (auto simp: list_ex_iff)

text \<open>
  C7. When the input table has all the required columns and at least one \<^verbatim>\<open>obs_end_date\<close>
  entry is parsed to \<^verbatim>\<open>NaT\<close>, \<^verbatim>\<open>main\<close> fails with the \<^verbatim>\<open>ValueError\<close> whose message
  gives the number of such rows (the length of the list of the entries parsed to
  \<^verbatim>\<open>NaT\<close>), and nothing else about them, and it returns no tables.
  When every entry is parsed, the validation raises nothing: it hands the table, with as
  many rows as the input, to the next section of \<^verbatim>\<open>main\<close>.
\<close>

theorem unparsable_dates_abort:
  assumes "set required_cols \<subseteq> set (columns df)"
  shows "(None \<in> set (parsed_dates to_datetime df) \<longrightarrow>
            0 < length (filter (\<lambda>d. d = None) (parsed_dates to_datetime df))
          \<and> main to_datetime feature_steps sort_values df
              = Inl (ValueError (''obs_end_date has ''
                  @ py_str_nat (length (filter (\<lambda>d. d = None) (parsed_dates to_datetime df)))
                  @ '' unparsable values.'')))
     \<and> (None \<notin> set (parsed_dates to_datetime df) \<longrightarrow>
          (\<exists>df1. basic_validation to_datetime df = Inr df1
             \<and> length (rows df1) = length (rows df)
             \<and> main to_datetime feature_steps sort_values df
                 = bind_err (feature_steps df1)
                     (\<lambda>df2. Inr (time_based_split sort_values df2))))"
proof -
  have m: "missing_cols df = []" using assms by (simp add: missing_cols_empty)
  have l: "length (parsed_dates to_datetime df) = length (rows df)"
    by (simp add: parsed_dates_def Let_def)
  have c: "0 < length (filter (\<lambda>d. d = None) ds) \<longleftrightarrow> None \<in> set ds" for ds :: "int option list"
    using bad_rows_pos[of ds] by (simp only: bad_rows_def)
  show ?thesis
    using m l
    by (simp add: main_def basic_validation_def bind_err_def Let_def list_ex_None bad_rows_def c
        del: length_greater_0_conv)
qed

lemma py_str_nat_2: "py_str_nat 2 = ''2''"
  by (simp add: py_str_nat.simps[of 2] digit_char_def)

theorem unparsable_dates_abort_witness:
  "set required_cols \<subseteq> set (columns bad_dates_table)
   \<and> None \<in> set (parsed_dates epoch_only bad_dates_table)
   \<and> main epoch_only Inr (sort_key fst) bad_dates_table
       = Inl (ValueError ''obs_end_date has 2 unparsable values.'')
   \<and> set required_cols \<subseteq> set (columns good_dates_table)
   \<and> None \<notin> set (parsed_dates epoch_only good_dates_table)
   \<and> (\<exists>df1. basic_validation epoch_only good_dates_table = Inr df1)"
proof -
  have h: "set required_cols \<subseteq> set (columns bad_dates_table)"
    "set required_cols \<subseteq> set (columns good_dates_table)"
    by (simp_all add: required_cols_def bad_dates_table_def good_dates_table_def)
  have b: "parsed_dates epoch_only bad_dates_table = [None, Some 10, None]"
    by (simp add: parsed_dates_def bad_dates_table_def epoch_only_def dated_def Let_def
        upt_rec[of 0] upt_rec[of 1] upt_rec[of 2] upt_rec[of 3])
  have g: "parsed_dates epoch_only good_dates_table = [Some 30, Some 10]"
    by (simp add: parsed_dates_def good_dates_table_def epoch_only_def dated_def Let_def
        upt_rec[of 0] upt_rec[of 1] upt_rec[of 2])
  have n: "None \<in> set (parsed_dates epoch_only bad_dates_table)"
    "None \<notin> set (parsed_dates epoch_only good_dates_table)"
    unfolding b g by simp_all
  have c: "length (filter (\<lambda>d. d = None) (parsed_dates epoch_only bad_dates_table)) = 2"
    unfolding b by simp
  from unparsable_dates_abort [OF h(1), of epoch_only Inr "sort_key fst"] n(1)
  have 1: "main epoch_only Inr (sort_key fst) bad_dates_table
       = Inl (ValueError ''obs_end_date has 2 unparsable values.'')"
    unfolding c py_str_nat_2 by simp
  from unparsable_dates_abort [OF h(2), of epoch_only Inr "sort_key fst"] n(2)
  have 2: "\<exists>df1. basic_validation epoch_only good_dates_table = Inr df1"
    by blast
  from h n 1 2 show ?thesis by blast
qed

end
